theory Spec2Isabelle
  imports Main "HOL-Library.Word"
begin

section \<open>JavaScript strings and the built-ins the matcher calls\<close>

text \<open>
  A JavaScript string is a sequence of UTF-16 code units. Literals of the source are
  written \<open>js ''...''\<close>; every literal of \<^verbatim>\<open>keymatch.ts\<close> is ASCII, so one character
  is one code unit.
\<close>

type_synonym codeunit = "16 word"
type_synonym jsstring = "codeunit list"

definition js :: "string \<Rightarrow> jsstring" where
  "js s = map (\<lambda>c. of_nat (of_char c)) s"

text \<open>
  \<^verbatim>\<open>String.prototype.trim\<close> removes leading and trailing WhiteSpace and LineTerminator
  code points: TAB, LF, VT, FF, CR, SPACE, NBSP, U+1680, U+2000..U+200A, U+2028, U+2029,
  U+202F, U+205F, U+3000 and U+FEFF. All of them are single code units.
\<close>

definition isWhiteSpace :: "codeunit \<Rightarrow> bool" where
  "isWhiteSpace c =
     (c \<in> set [0x9, 0xA, 0xB, 0xC, 0xD, 0x20, 0xA0, 0x1680, 0x2028, 0x2029,
                  0x202F, 0x205F, 0x3000, 0xFEFF]
      \<or> (0x2000 \<le> c \<and> c \<le> 0x200A))"

definition trim :: "jsstring \<Rightarrow> jsstring" where
  "trim s = rev (dropWhile isWhiteSpace (rev (dropWhile isWhiteSpace s)))"

text \<open>
  \<^verbatim>\<open>String.prototype.toLowerCase\<close>, on the Basic Latin and Latin-1 blocks: \<open>A..Z\<close> and
  U+00C0..U+00DE (without the multiplication sign U+00D7) move up by 32. Code units above
  U+00FF are left as they are; no string of the source and no token the parser recognises
  contains one.
\<close>

definition lowerUnit :: "codeunit \<Rightarrow> codeunit" where
  "lowerUnit c =
     (if 0x41 \<le> c \<and> c \<le> 0x5A then c + 32
      else if 0xC0 \<le> c \<and> c \<le> 0xDE \<and> c \<noteq> 0xD7 then c + 32
      else c)"

definition toLowerCase :: "jsstring \<Rightarrow> jsstring" where
  "toLowerCase s = map lowerUnit s"

text \<open>
  \<^verbatim>\<open>s.split(sep)\<close> with a one-unit separator: the pieces between the separators, so the
  empty string gives one empty piece and a trailing separator gives an empty last piece.
\<close>

fun splitOn :: "codeunit \<Rightarrow> jsstring \<Rightarrow> jsstring list" where
  "splitOn sep [] = [[]]"
| "splitOn sep (c # cs) =
     (if c = sep then [] # splitOn sep cs
      else (case splitOn sep cs of [] \<Rightarrow> [[c]] | p # ps \<Rightarrow> (c # p) # ps))"

text \<open>\<^verbatim>\<open>parts.join(sep)\<close>, the inverse used to build accelerator strings from tokens.\<close>

fun joinWith :: "codeunit \<Rightarrow> jsstring list \<Rightarrow> jsstring" where
  "joinWith sep [] = []"
| "joinWith sep [p] = p"
| "joinWith sep (p # q # ps) = p @ sep # joinWith sep (q # ps)"

definition plusSign :: codeunit where
  "plusSign = 0x2B"

section \<open>The accelerator parser\<close>

text \<open>The object \<^verbatim>\<open>{ ctrl, alt, shift, meta, key }\<close> that \<^verbatim>\<open>parseMatchString\<close> returns.\<close>

record parsed =
  ctrl :: bool
  alt :: bool
  shift :: bool
  meta :: bool
  key :: jsstring

text \<open>\<^verbatim>\<open>throw new Error(`Invalid accelerator: ${matchString}`)\<close>\<close>

datatype error = InvalidAccelerator jsstring

text \<open>
  One round of the \<^verbatim>\<open>for (const modifier of modifierParts) switch (modifier)\<close> loop.
  \<^verbatim>\<open>isMac()\<close> comes from \<^verbatim>\<open>./isMac.js\<close>; its answer is the parameter \<open>isMac\<close>.
\<close>

definition switchModifier :: "bool \<Rightarrow> jsstring \<Rightarrow> parsed \<Rightarrow> parsed" where
  "switchModifier isMac modifier st =
     (if modifier = js ''cmd'' \<or> modifier = js ''command'' then st\<lparr>meta := True\<rparr>
      else if modifier = js ''ctrl'' \<or> modifier = js ''control'' then st\<lparr>ctrl := True\<rparr>
      else if modifier = js ''cmdorctrl'' \<or> modifier = js ''commandorcontrol'' then
        (if isMac then st\<lparr>meta := True\<rparr> else st\<lparr>ctrl := True\<rparr>)
      else if modifier = js ''alt'' then st\<lparr>alt := True\<rparr>
      else if modifier = js ''option'' then (if isMac then st\<lparr>alt := True\<rparr> else st)
      else if modifier = js ''shift'' then st\<lparr>shift := True\<rparr>
      else if modifier = js ''meta'' \<or> modifier = js ''super'' then st\<lparr>meta := True\<rparr>
      else st)"

text \<open>
  \<^verbatim>\<open>let ctrl = false, alt = false, shift = false, meta = false\<close> beside the key \<open>k\<close>: the
  state the loop starts from, and what a blank string parses to (with the empty key).
\<close>

definition noModifiers :: "jsstring \<Rightarrow> parsed" where
  "noModifiers k = \<lparr>ctrl = False, alt = False, shift = False, meta = False, key = k\<rparr>"

definition parseMatchString :: "bool \<Rightarrow> jsstring \<Rightarrow> error + parsed" where
  "parseMatchString isMac matchString =
     (if trim matchString = [] then Inr (noModifiers [])
      else
        let parts = splitOn plusSign matchString;
            key = (if parts = [] then None else Some (toLowerCase (last parts)))
        in case key of
             None \<Rightarrow> Inl (InvalidAccelerator matchString)
           | Some k \<Rightarrow>
               if k = [] then Inl (InvalidAccelerator matchString)
               else
                 let modifierParts = map toLowerCase (butlast parts)
                 in Inr (fold (switchModifier isMac) modifierParts (noModifiers k)))"

section \<open>The key normalizer\<close>

text \<open>
  A value that \<^verbatim>\<open>normalizeKey\<close> can return at run time: a string, or one of the objects
  that hang off \<^verbatim>\<open>Object.prototype\<close>, named by the property that holds it.
\<close>

datatype jsval = JSString jsstring | JSBuiltin jsstring

text \<open>The own properties of the object literal \<^verbatim>\<open>keyMap\<close>.\<close>

definition keyMapOwn :: "(jsstring \<times> jsstring) list" where
  "keyMapOwn =
     [(js '' '', js ''space''),
      (js ''arrowup'', js ''up''),
      (js ''arrowdown'', js ''down''),
      (js ''arrowleft'', js ''left''),
      (js ''arrowright'', js ''right'')]"

text \<open>
  \<^verbatim>\<open>keyMap\<close> is written as an object literal, so its prototype is \<^verbatim>\<open>Object.prototype\<close>
  and \<^verbatim>\<open>keyMap[k]\<close> finds the properties of that prototype too. These are their names;
  each holds a function or (\<^verbatim>\<open>__proto__\<close>) an object, all of them truthy.
\<close>

definition objectPrototypeProps :: "jsstring list" where
  "objectPrototypeProps =
     [js ''constructor'', js ''__defineGetter__'', js ''__defineSetter__'',
      js ''hasOwnProperty'', js ''__lookupGetter__'', js ''__lookupSetter__'',
      js ''isPrototypeOf'', js ''propertyIsEnumerable'', js ''toString'',
      js ''valueOf'', js ''__proto__'', js ''toLocaleString'']"

text \<open>\<^verbatim>\<open>keyMap[k]\<close>: \<open>None\<close> is \<^verbatim>\<open>undefined\<close>.\<close>

definition keyMapGet :: "jsstring \<Rightarrow> jsval option" where
  "keyMapGet k =
     (case map_of keyMapOwn k of
        Some v \<Rightarrow> Some (JSString v)
      | None \<Rightarrow> if k \<in> set objectPrototypeProps then Some (JSBuiltin k) else None)"

text \<open>Truthiness, for \<^verbatim>\<open>||\<close>: of these values only the empty string is falsy.\<close>

fun truthy :: "jsval \<Rightarrow> bool" where
  "truthy (JSString s) = (s \<noteq> [])"
| "truthy (JSBuiltin n) = True"

definition normalizeKey :: "jsstring \<Rightarrow> jsval" where
  "normalizeKey k =
     (let normalized = toLowerCase k
      in case keyMapGet normalized of
           Some v \<Rightarrow> if truthy v then v else JSString normalized
         | None \<Rightarrow> JSString normalized)"

text \<open>
  The fields of a \<^verbatim>\<open>KeyboardEvent\<close> that the matcher reads. \<^verbatim>\<open>key\<close> and the four flags
  have the types \<^verbatim>\<open>string\<close> and \<^verbatim>\<open>boolean\<close>; the source reads \<^verbatim>\<open>code\<close> as
  \<^verbatim>\<open>string | undefined\<close>.
\<close>

record event =
  key :: jsstring
  code :: "jsstring option"
  ctrlKey :: bool
  altKey :: bool
  shiftKey :: bool
  metaKey :: bool

text \<open>\<^verbatim>\<open>/^Key[A-Z]$/.test(code)\<close> and \<^verbatim>\<open>/^Digit[0-9]$/.test(code)\<close>\<close>

definition testKeyAZ :: "jsstring \<Rightarrow> bool" where
  "testKeyAZ c =
     (length c = 4 \<and> take 3 c = js ''Key'' \<and> 0x41 \<le> last c \<and> last c \<le> 0x5A)"

definition testDigit09 :: "jsstring \<Rightarrow> bool" where
  "testDigit09 c =
     (length c = 6 \<and> take 5 c = js ''Digit'' \<and> 0x30 \<le> last c \<and> last c \<le> 0x39)"

definition normalizedEventKey :: "event \<Rightarrow> jsval" where
  "normalizedEventKey ev =
     (case code ev of
        None \<Rightarrow> normalizeKey (event.key ev)
      | Some c \<Rightarrow>
          if c = [] then normalizeKey (event.key ev)
          else if testKeyAZ c then JSString (toLowerCase (drop 3 c))
          else if testDigit09 c then JSString (drop 5 c)
          else normalizeKey (event.key ev))"

section \<open>The matcher\<close>

text \<open>
  \<^verbatim>\<open>keymatch\<close>: the parser runs first, so its exception leaves the function; \<^verbatim>\<open>===\<close>
  between the normalized key and the parsed key holds only for an equal string.
\<close>

definition keymatch :: "bool \<Rightarrow> event \<Rightarrow> jsstring \<Rightarrow> error + bool" where
  "keymatch isMac ev matchString =
     (case parseMatchString isMac matchString of
        Inl e \<Rightarrow> Inl e
      | Inr p \<Rightarrow>
          Inr (normalizedEventKey ev = JSString (parsed.key p)
               \<and> ctrlKey ev = ctrl p
               \<and> altKey ev = alt p
               \<and> shiftKey ev = shift p
               \<and> metaKey ev = meta p))"

text \<open>The events of the test suite: \<^verbatim>\<open>createKeyboardEvent\<close> defaults every flag to false.\<close>

definition createKeyboardEvent :: "jsstring \<Rightarrow> jsstring option \<Rightarrow> event" where
  "createKeyboardEvent k c =
     \<lparr>key = k, code = c, ctrlKey = False, altKey = False, shiftKey = False, metaKey = False\<rparr>"

section \<open>Facts about the built-ins and the modifier loop\<close>

lemma toLowerCase_Nil_iff: "toLowerCase s = [] \<longleftrightarrow> s = []"
  by (simp add: toLowerCase_def)

lemma splitOn_not_Nil [simp]: "splitOn sep s \<noteq> []"
  by (induction s) (auto split: list.splits)

lemma splitOn_no_sep: "sep \<notin> set s \<Longrightarrow> splitOn sep s = [s]"
  by (induction s) auto

lemma splitOn_append: "sep \<notin> set p \<Longrightarrow> splitOn sep (p @ sep # rest) = p # splitOn sep rest"
  by (induction p) auto

lemma splitOn_joinWith:
  "parts \<noteq> [] \<Longrightarrow> list_all (\<lambda>p. sep \<notin> set p) parts \<Longrightarrow> splitOn sep (joinWith sep parts) = parts"
proof (induction sep parts rule: joinWith.induct)
  case (1 sep)
  then show ?case by simp
next
  case (2 sep p)
  then show ?case by (simp add: splitOn_no_sep)
next
  case (3 sep p q ps)
  then show ?case by (simp add: splitOn_append)
qed

lemma trim_Nil_iff: "trim s = [] \<longleftrightarrow> list_all isWhiteSpace s"
proof (cases "dropWhile isWhiteSpace s")
  case Nil
  then have "\<forall>x\<in>set s. isWhiteSpace x"
    by (simp add: dropWhile_eq_Nil_conv)
  then show ?thesis
    unfolding trim_def Nil by (simp add: list_all_iff)
next
  case (Cons c cs)
  then have "\<not> isWhiteSpace c"
    using hd_dropWhile [of isWhiteSpace s] by simp
  moreover have "c \<in> set s"
    using Cons set_dropWhileD [of c isWhiteSpace s] by simp
  ultimately show ?thesis
    using Cons by (auto simp: trim_def dropWhile_eq_Nil_conv list_all_iff)
qed

lemma splitOn_single_Nil: "splitOn sep s = [[]] \<longleftrightarrow> s = []"
  by (cases s) (auto split: list.splits)

lemma last_splitOn_Nil_iff: "last (splitOn sep s) = [] \<longleftrightarrow> (s = [] \<or> last s = sep)"
proof (induction s)
  case Nil
  then show ?case by simp
next
  case (Cons c cs)
  obtain p ps where ps: "splitOn sep cs = p # ps"
    using splitOn_not_Nil [of sep cs] by (cases "splitOn sep cs") auto
  show ?case
  proof (cases "ps = []")
    case True
    with ps Cons show ?thesis
      by (cases cs) (auto split: list.splits if_splits)
  next
    case False
    with ps Cons show ?thesis
      by (cases cs) (auto split: list.splits if_splits)
  qed
qed

lemma plus_not_WhiteSpace: "\<not> isWhiteSpace plusSign"
  by (simp add: isWhiteSpace_def plusSign_def)

lemma lowerUnit_plus_iff: "lowerUnit c = plusSign \<longleftrightarrow> c = plusSign"
proof -
  have a: "0x41 \<le> c \<Longrightarrow> c \<le> 0x5A \<Longrightarrow> c + 32 \<noteq> 0x2B"
    by unat_arith
  have b: "0xC0 \<le> c \<Longrightarrow> c \<le> 0xDE \<Longrightarrow> c + 32 \<noteq> 0x2B"
    by unat_arith
  show ?thesis
    using a b by (auto simp: lowerUnit_def plusSign_def)
qed

lemma not_blank_if_plus: "plusSign \<in> set s \<Longrightarrow> trim s \<noteq> []"
  using plus_not_WhiteSpace by (auto simp: trim_Nil_iff list_all_iff)

lemma switchModifier_key: "parsed.key (switchModifier isMac m st) = parsed.key st"
  by (simp add: switchModifier_def)

lemma switchModifier_ctrl:
  "ctrl (switchModifier isMac m st) = (ctrl st \<or> ctrl (switchModifier isMac m (noModifiers [])))"
  by (simp add: switchModifier_def noModifiers_def)

lemma switchModifier_alt:
  "alt (switchModifier isMac m st) = (alt st \<or> alt (switchModifier isMac m (noModifiers [])))"
  by (simp add: switchModifier_def noModifiers_def)

lemma switchModifier_shift:
  "shift (switchModifier isMac m st) = (shift st \<or> shift (switchModifier isMac m (noModifiers [])))"
  by (simp add: switchModifier_def noModifiers_def)

lemma switchModifier_meta:
  "meta (switchModifier isMac m st) = (meta st \<or> meta (switchModifier isMac m (noModifiers [])))"
  by (simp add: switchModifier_def noModifiers_def)

lemma fold_switch_key: "parsed.key (fold (switchModifier isMac) ms st) = parsed.key st"
  by (induction ms arbitrary: st) (simp_all add: switchModifier_key)

lemma fold_switch_ctrl:
  "ctrl (fold (switchModifier isMac) ms st) =
     (ctrl st \<or> (\<exists>m\<in>set ms. ctrl (switchModifier isMac m (noModifiers []))))"
proof (induction ms arbitrary: st)
  case Nil
  then show ?case by simp
next
  case (Cons m ms)
  show ?case
    using switchModifier_ctrl [of isMac m st] by (auto simp: Cons.IH)
qed

lemma fold_switch_alt:
  "alt (fold (switchModifier isMac) ms st) =
     (alt st \<or> (\<exists>m\<in>set ms. alt (switchModifier isMac m (noModifiers []))))"
proof (induction ms arbitrary: st)
  case Nil
  then show ?case by simp
next
  case (Cons m ms)
  show ?case
    using switchModifier_alt [of isMac m st] by (auto simp: Cons.IH)
qed

lemma fold_switch_shift:
  "shift (fold (switchModifier isMac) ms st) =
     (shift st \<or> (\<exists>m\<in>set ms. shift (switchModifier isMac m (noModifiers []))))"
proof (induction ms arbitrary: st)
  case Nil
  then show ?case by simp
next
  case (Cons m ms)
  show ?case
    using switchModifier_shift [of isMac m st] by (auto simp: Cons.IH)
qed

lemma fold_switch_meta:
  "meta (fold (switchModifier isMac) ms st) =
     (meta st \<or> (\<exists>m\<in>set ms. meta (switchModifier isMac m (noModifiers []))))"
proof (induction ms arbitrary: st)
  case Nil
  then show ?case by simp
next
  case (Cons m ms)
  show ?case
    using switchModifier_meta [of isMac m st] by (auto simp: Cons.IH)
qed

lemma fold_switch_set_cong:
  assumes "set ms = set ms'"
  shows "fold (switchModifier isMac) ms st = fold (switchModifier isMac) ms' st"
  by (rule parsed.equality)
     (simp_all add: assms fold_switch_key fold_switch_ctrl fold_switch_alt
        fold_switch_shift fold_switch_meta)

lemmas parse_eval = parseMatchString_def switchModifier_def noModifiers_def toLowerCase_def
  lowerUnit_def trim_def isWhiteSpace_def js_def plusSign_def

lemmas key_eval = createKeyboardEvent_def normalizedEventKey_def normalizeKey_def keyMapGet_def
  keyMapOwn_def objectPrototypeProps_def testKeyAZ_def testDigit09_def toLowerCase_def
  lowerUnit_def js_def

lemma plus_notin_toLowerCase: "plusSign \<in> set (toLowerCase s) \<longleftrightarrow> plusSign \<in> set s"
proof -
  have "plusSign = lowerUnit c \<longleftrightarrow> c = plusSign" for c
    using lowerUnit_plus_iff [of c] by auto
  then show ?thesis
    by (auto simp: toLowerCase_def image_iff)
qed

lemma parse_single_modifier:
  assumes "plusSign \<notin> set tok" and "plusSign \<notin> set base" and "base \<noteq> []"
  shows "parseMatchString isMac (tok @ plusSign # base) =
           Inr (switchModifier isMac (toLowerCase tok) (noModifiers (toLowerCase base)))"
proof -
  have "trim (tok @ plusSign # base) \<noteq> []"
    by (rule not_blank_if_plus) simp
  moreover have "splitOn plusSign (tok @ plusSign # base) = [tok, base]"
    using assms by (simp add: splitOn_append splitOn_no_sep)
  ultimately show ?thesis
    using assms(3) by (simp add: parseMatchString_def toLowerCase_Nil_iff)
qed

section \<open>The claims\<close>

text \<open>
  Claim C1. For every event and every accelerator that parses without error, \<^verbatim>\<open>keymatch\<close>
  returns true exactly when the normalized event key is the parsed base key and each of the
  four modifier flags of the event equals the parsed requirement. So an event with a
  modifier pressed that the accelerator does not ask for never matches, whatever else is
  pressed.
\<close>

theorem keymatch_exact_modifiers:
  assumes "parseMatchString isMac acc = Inr p"
  shows "keymatch isMac ev acc =
           Inr (normalizedEventKey ev = JSString (parsed.key p)
                \<and> ctrlKey ev = ctrl p \<and> altKey ev = alt p
                \<and> shiftKey ev = shift p \<and> metaKey ev = meta p)
         \<and> ((ctrlKey ev \<and> \<not> ctrl p) \<or> (altKey ev \<and> \<not> alt p)
              \<or> (shiftKey ev \<and> \<not> shift p) \<or> (metaKey ev \<and> \<not> meta p)
             \<longrightarrow> keymatch isMac ev acc = Inr False)"
  using assms by (auto simp: keymatch_def)

theorem keymatch_exact_modifiers_witness:
  "parseMatchString True (js ''CmdOrCtrl+K'') = Inr ((noModifiers (js ''k''))\<lparr>meta := True\<rparr>)
   \<and> keymatch True ((createKeyboardEvent (js ''k'') None)\<lparr>metaKey := True\<rparr>) (js ''CmdOrCtrl+K'')
       = Inr True
   \<and> keymatch True ((createKeyboardEvent (js ''k'') None)\<lparr>metaKey := True, altKey := True\<rparr>)
        (js ''CmdOrCtrl+K'') = Inr False"
proof -
  have h: "parseMatchString True (js ''CmdOrCtrl+K'') = Inr ((noModifiers (js ''k''))\<lparr>meta := True\<rparr>)"
    by (simp add: parseMatchString_def switchModifier_def noModifiers_def toLowerCase_def
        lowerUnit_def trim_def isWhiteSpace_def js_def plusSign_def)
  show ?thesis
    using h
      keymatch_exact_modifiers [OF h, of "(createKeyboardEvent (js ''k'') None)\<lparr>metaKey := True\<rparr>"]
      keymatch_exact_modifiers [OF h,
        of "(createKeyboardEvent (js ''k'') None)\<lparr>metaKey := True, altKey := True\<rparr>"]
    by (simp add: noModifiers_def createKeyboardEvent_def normalizedEventKey_def normalizeKey_def
        keyMapGet_def keyMapOwn_def objectPrototypeProps_def toLowerCase_def lowerUnit_def js_def)
qed


text \<open>
  Claim C2. A modifier token that lowercases to \<^verbatim>\<open>cmdorctrl\<close> or \<^verbatim>\<open>commandorcontrol\<close> sets
  the meta requirement on a macOS-like platform and the control requirement elsewhere, and
  leaves the other one as it was: alone before a base key it requires exactly one of the
  two. On macOS \<^verbatim>\<open>CmdOrCtrl+K\<close> matches \<^verbatim>\<open>k\<close> with meta and not with ctrl; elsewhere the two
  outcomes are swapped.
\<close>

theorem cmdorctrl_platform:
  "(toLowerCase tok = js ''cmdorctrl'' \<or> toLowerCase tok = js ''commandorcontrol'' \<longrightarrow>
      switchModifier isMac (toLowerCase tok) st
        = (if isMac then st\<lparr>meta := True\<rparr> else st\<lparr>ctrl := True\<rparr>)
      \<and> (plusSign \<notin> set base \<and> base \<noteq> [] \<longrightarrow>
           parseMatchString isMac (tok @ plusSign # base)
             = Inr \<lparr>ctrl = \<not> isMac, alt = False, shift = False, meta = isMac,
                    key = toLowerCase base\<rparr>))
   \<and> keymatch True ((createKeyboardEvent (js ''k'') None)\<lparr>metaKey := True\<rparr>) (js ''CmdOrCtrl+K'')
       = Inr True
   \<and> keymatch True ((createKeyboardEvent (js ''k'') None)\<lparr>ctrlKey := True\<rparr>) (js ''CmdOrCtrl+K'')
       = Inr False
   \<and> keymatch False ((createKeyboardEvent (js ''k'') None)\<lparr>metaKey := True\<rparr>) (js ''CmdOrCtrl+K'')
       = Inr False
   \<and> keymatch False ((createKeyboardEvent (js ''k'') None)\<lparr>ctrlKey := True\<rparr>) (js ''CmdOrCtrl+K'')
       = Inr True"
proof -
  have tokens: "switchModifier isMac (toLowerCase tok) st
        = (if isMac then st\<lparr>meta := True\<rparr> else st\<lparr>ctrl := True\<rparr>)"
    if "toLowerCase tok = js ''cmdorctrl'' \<or> toLowerCase tok = js ''commandorcontrol''"
    using that by (auto simp: switchModifier_def js_def)
  have single: "parseMatchString isMac (tok @ plusSign # base)
             = Inr \<lparr>ctrl = \<not> isMac, alt = False, shift = False, meta = isMac,
                    key = toLowerCase base\<rparr>"
    if t: "toLowerCase tok = js ''cmdorctrl'' \<or> toLowerCase tok = js ''commandorcontrol''"
      and b: "plusSign \<notin> set base" "base \<noteq> []"
  proof -
    have "plusSign \<notin> set (toLowerCase tok)"
      using t by (auto simp: js_def plusSign_def)
    then have "plusSign \<notin> set tok"
      by (simp add: plus_notin_toLowerCase)
    then have "parseMatchString isMac (tok @ plusSign # base) =
           Inr (switchModifier isMac (toLowerCase tok) (noModifiers (toLowerCase base)))"
      using b by (rule parse_single_modifier)
    also have "switchModifier isMac (toLowerCase tok) (noModifiers (toLowerCase base))
        = (if isMac then (noModifiers (toLowerCase base))\<lparr>meta := True\<rparr>
           else (noModifiers (toLowerCase base))\<lparr>ctrl := True\<rparr>)"
      using t by (auto simp: switchModifier_def js_def)
    finally show ?thesis
      by (simp add: noModifiers_def)
  qed
  have m1: "keymatch True ((createKeyboardEvent (js ''k'') None)\<lparr>metaKey := True\<rparr>)
      (js ''CmdOrCtrl+K'') = Inr True"
    by (simp add: keymatch_def parse_eval key_eval)
  have m2: "keymatch True ((createKeyboardEvent (js ''k'') None)\<lparr>ctrlKey := True\<rparr>)
      (js ''CmdOrCtrl+K'') = Inr False"
    by (simp add: keymatch_def parse_eval key_eval)
  have m3: "keymatch False ((createKeyboardEvent (js ''k'') None)\<lparr>metaKey := True\<rparr>)
      (js ''CmdOrCtrl+K'') = Inr False"
    by (simp add: keymatch_def parse_eval key_eval)
  have m4: "keymatch False ((createKeyboardEvent (js ''k'') None)\<lparr>ctrlKey := True\<rparr>)
      (js ''CmdOrCtrl+K'') = Inr True"
    by (simp add: keymatch_def parse_eval key_eval)
  show ?thesis
    using tokens single m1 m2 m3 m4 by blast
qed

theorem cmdorctrl_platform_witness:
  "toLowerCase (js ''CommandOrControl'') = js ''commandorcontrol''
   \<and> switchModifier True (toLowerCase (js ''CommandOrControl'')) (noModifiers (js ''n''))
       = (noModifiers (js ''n''))\<lparr>meta := True\<rparr>
   \<and> switchModifier False (toLowerCase (js ''CommandOrControl'')) (noModifiers (js ''n''))
       = (noModifiers (js ''n''))\<lparr>ctrl := True\<rparr>
   \<and> parseMatchString False (js ''CommandOrControl'' @ plusSign # js ''Delete'')
       = Inr \<lparr>ctrl = True, alt = False, shift = False, meta = False, key = js ''delete''\<rparr>"
proof -
  have h: "toLowerCase (js ''CommandOrControl'') = js ''commandorcontrol''"
    by (simp add: toLowerCase_def lowerUnit_def js_def)
  have b: "plusSign \<notin> set (js ''Delete'') \<and> js ''Delete'' \<noteq> []"
    by (simp add: js_def plusSign_def)
  have l: "toLowerCase (js ''Delete'') = js ''delete''"
    by (simp add: toLowerCase_def lowerUnit_def js_def)
  show ?thesis
    using h b l
      cmdorctrl_platform [of "js ''CommandOrControl''" True "noModifiers (js ''n'')" "js ''Delete''"]
      cmdorctrl_platform [of "js ''CommandOrControl''" False "noModifiers (js ''n'')" "js ''Delete''"]
    by simp
qed

text \<open>
  Claim C3. Off macOS the token \<^verbatim>\<open>option\<close> changes nothing, so \<^verbatim>\<open>Option+K\<close> parses to what
  \<^verbatim>\<open>K\<close> parses to, with alt required to be false, and no event with alt pressed matches
  it. On macOS the token sets the alt requirement.
\<close>

theorem option_platform_gated:
  "switchModifier False (js ''option'') st = st
   \<and> switchModifier True (js ''option'') st = st\<lparr>alt := True\<rparr>
   \<and> parseMatchString False (js ''Option+K'') = Inr (noModifiers (js ''k''))
   \<and> parseMatchString False (js ''Option+K'') = parseMatchString False (js ''K'')
   \<and> parseMatchString True (js ''Option+K'') = Inr ((noModifiers (js ''k''))\<lparr>alt := True\<rparr>)
   \<and> (altKey ev \<longrightarrow> keymatch False ev (js ''Option+K'') = Inr False)
   \<and> keymatch True ((createKeyboardEvent (js ''k'') None)\<lparr>altKey := True\<rparr>) (js ''Option+K'')
       = Inr True"
proof -
  have s1: "switchModifier False (js ''option'') st = st"
    by (simp add: switchModifier_def js_def)
  have s2: "switchModifier True (js ''option'') st = st\<lparr>alt := True\<rparr>"
    by (simp add: switchModifier_def js_def)
  have p1: "parseMatchString False (js ''Option+K'') = Inr (noModifiers (js ''k''))"
    by (simp add: parse_eval)
  have p2: "parseMatchString False (js ''K'') = Inr (noModifiers (js ''k''))"
    by (simp add: parse_eval)
  have p3: "parseMatchString True (js ''Option+K'') = Inr ((noModifiers (js ''k''))\<lparr>alt := True\<rparr>)"
    by (simp add: parse_eval)
  have k1: "keymatch False ev (js ''Option+K'') = Inr False" if "altKey ev"
    using that by (simp add: keymatch_def p1) (simp add: noModifiers_def)
  have k2: "keymatch True ((createKeyboardEvent (js ''k'') None)\<lparr>altKey := True\<rparr>)
      (js ''Option+K'') = Inr True"
    by (simp add: keymatch_def p3) (simp add: noModifiers_def key_eval)
  show ?thesis
    using s1 s2 p1 p2 p3 k1 k2 by simp
qed

theorem option_platform_gated_witness:
  "altKey ((createKeyboardEvent (js ''k'') None)\<lparr>altKey := True\<rparr>)
   \<and> keymatch False ((createKeyboardEvent (js ''k'') None)\<lparr>altKey := True\<rparr>) (js ''Option+K'')
       = Inr False"
proof -
  have h: "altKey ((createKeyboardEvent (js ''k'') None)\<lparr>altKey := True\<rparr>)"
    by simp
  show ?thesis
    using h option_platform_gated [of _ "(createKeyboardEvent (js ''k'') None)\<lparr>altKey := True\<rparr>"]
    by blast
qed

lemma keyMapGet_values_nonempty: "keyMapGet k = Some v \<Longrightarrow> v \<noteq> JSString []"
  by (auto simp: keyMapGet_def keyMapOwn_def js_def split: option.splits if_splits)

lemma normalizeKey_empty_iff: "normalizeKey k = JSString [] \<longleftrightarrow> k = []"
proof
  assume "normalizeKey k = JSString []"
  then show "k = []"
    using keyMapGet_values_nonempty [of "toLowerCase k"]
    by (auto simp: normalizeKey_def Let_def toLowerCase_Nil_iff split: option.splits if_splits)
next
  assume "k = []"
  then show "normalizeKey k = JSString []"
    by (simp add: normalizeKey_def keyMapGet_def keyMapOwn_def objectPrototypeProps_def
        toLowerCase_def js_def)
qed

lemma normalizedEventKey_nonempty: "event.key ev \<noteq> [] \<Longrightarrow> normalizedEventKey ev \<noteq> JSString []"
  by (auto simp: normalizedEventKey_def normalizeKey_empty_iff testKeyAZ_def testDigit09_def
      toLowerCase_Nil_iff split: option.splits)

text \<open>
  Claim C4, as stated, fails: the event that \<^verbatim>\<open>createKeyboardEvent({ key: '' })\<close> builds has
  the empty normalized key and no modifier pressed, and \<^verbatim>\<open>keymatch\<close> answers true for it on
  the empty accelerator.
\<close>

theorem blank_accelerator_counterexample:
  "keymatch False (createKeyboardEvent (js '''') None) (js '''') = Inr True"
  by (simp add: keymatch_def parse_eval key_eval)

text \<open>
  Claim C4, amended. An empty or whitespace-only accelerator parses to all four requirements
  false and the empty base key. On such an accelerator \<^verbatim>\<open>keymatch\<close> returns true exactly
  when the normalized event key is the empty string and no modifier is pressed; so it is
  false for every event whose logical key is not empty.
\<close>

theorem blank_accelerator:
  assumes "trim acc = []"
  shows "parseMatchString isMac acc
           = Inr \<lparr>ctrl = False, alt = False, shift = False, meta = False, key = []\<rparr>
         \<and> keymatch isMac ev acc
             = Inr (normalizedEventKey ev = JSString [] \<and> \<not> ctrlKey ev \<and> \<not> altKey ev
                    \<and> \<not> shiftKey ev \<and> \<not> metaKey ev)
         \<and> (event.key ev \<noteq> [] \<longrightarrow> keymatch isMac ev acc = Inr False)"
  using assms normalizedEventKey_nonempty [of ev]
  by (auto simp: keymatch_def parseMatchString_def noModifiers_def)

theorem blank_accelerator_witness:
  "trim (js ''  '') = []
   \<and> parseMatchString True (js ''  '')
       = Inr \<lparr>ctrl = False, alt = False, shift = False, meta = False, key = []\<rparr>
   \<and> keymatch True (createKeyboardEvent (js ''a'') None) (js ''  '') = Inr False"
proof -
  have h: "trim (js ''  '') = []"
    by (simp add: trim_def isWhiteSpace_def js_def)
  have k: "event.key (createKeyboardEvent (js ''a'') None) \<noteq> []"
    by (simp add: createKeyboardEvent_def js_def)
  show ?thesis
    using h k blank_accelerator [OF h, of True "createKeyboardEvent (js ''a'') None"]
    by blast
qed

text \<open>
  Claim C5. \<^verbatim>\<open>keymatch\<close> raises exactly when the accelerator is not blank and the last piece
  of its split at \<^verbatim>\<open>+\<close> is empty, and the error is the invalid-accelerator error for that
  string. On every other input (unknown modifier tokens, unknown base keys, blank strings)
  it returns a boolean.
\<close>

theorem keymatch_raises_iff:
  "(keymatch isMac ev acc = Inl e
      \<longleftrightarrow> e = InvalidAccelerator acc \<and> trim acc \<noteq> [] \<and> last (splitOn plusSign acc) = [])
   \<and> ((\<exists>b. keymatch isMac ev acc = Inr b)
      \<longleftrightarrow> \<not> (trim acc \<noteq> [] \<and> last (splitOn plusSign acc) = []))"
  by (auto simp: keymatch_def parseMatchString_def Let_def toLowerCase_Nil_iff
      split: sum.splits if_splits)

theorem keymatch_raises_iff_witness:
  "keymatch False (createKeyboardEvent (js ''k'') None) (js ''Ctrl+'')
     = Inl (InvalidAccelerator (js ''Ctrl+''))
   \<and> (\<exists>b. keymatch False (createKeyboardEvent (js ''k'') None) (js ''Hyper+Nope'') = Inr b)
   \<and> (\<exists>b. keymatch False (createKeyboardEvent (js ''k'') None) (js '' '') = Inr b)"
proof -
  have a: "trim (js ''Ctrl+'') \<noteq> [] \<and> last (splitOn plusSign (js ''Ctrl+'')) = []"
    by (simp add: trim_def isWhiteSpace_def js_def plusSign_def)
  have b: "last (splitOn plusSign (js ''Hyper+Nope'')) \<noteq> []"
    by (simp add: js_def plusSign_def)
  have c: "trim (js '' '') = []"
    by (simp add: trim_def isWhiteSpace_def js_def)
  show ?thesis
    using a b c
      keymatch_raises_iff [of False "createKeyboardEvent (js ''k'') None" "js ''Ctrl+''"
        "InvalidAccelerator (js ''Ctrl+'')"]
      keymatch_raises_iff [of False "createKeyboardEvent (js ''k'') None" "js ''Hyper+Nope''"]
      keymatch_raises_iff [of False "createKeyboardEvent (js ''k'') None" "js '' ''"]
    by blast
qed

text \<open>
  Claim C6. When the event's code is \<^verbatim>\<open>Digit\<close> followed by exactly one digit, the normalized
  key is that digit, whatever the logical key is; so \<^verbatim>\<open>!\<close> with code \<^verbatim>\<open>Digit1\<close> and shift
  matches \<^verbatim>\<open>Shift+1\<close>.
\<close>

theorem digit_code_overrides_key:
  "(0x30 \<le> d \<and> d \<le> 0x39 \<and> code ev = Some (js ''Digit'' @ [d])
      \<longrightarrow> normalizedEventKey ev = JSString [d])
   \<and> keymatch isMac ((createKeyboardEvent (js ''!'') (Some (js ''Digit1'')))\<lparr>shiftKey := True\<rparr>)
        (js ''Shift+1'') = Inr True"
proof -
  have g: "normalizedEventKey ev = JSString [d]"
    if "0x30 \<le> d" "d \<le> 0x39" "code ev = Some (js ''Digit'' @ [d])"
    using that by (simp add: normalizedEventKey_def testKeyAZ_def testDigit09_def js_def)
  have p: "parseMatchString isMac (js ''Shift+1'') = Inr ((noModifiers (js ''1''))\<lparr>shift := True\<rparr>)"
    by (simp add: parse_eval)
  have c: "keymatch isMac ((createKeyboardEvent (js ''!'') (Some (js ''Digit1'')))\<lparr>shiftKey := True\<rparr>)
        (js ''Shift+1'') = Inr True"
    by (simp add: keymatch_def p) (simp add: noModifiers_def key_eval)
  show ?thesis
    using g c by blast
qed

theorem digit_code_overrides_key_witness:
  "code (createKeyboardEvent (js ''%'') (Some (js ''Digit5''))) = Some (js ''Digit'' @ [0x35])
   \<and> normalizedEventKey (createKeyboardEvent (js ''%'') (Some (js ''Digit5''))) = JSString (js ''5'')"
proof -
  have h: "(0x30::codeunit) \<le> 0x35 \<and> (0x35::codeunit) \<le> 0x39
      \<and> code (createKeyboardEvent (js ''%'') (Some (js ''Digit5''))) = Some (js ''Digit'' @ [0x35])"
    by (simp add: createKeyboardEvent_def js_def)
  have e: "js ''5'' = [0x35]"
    by (simp add: js_def)
  show ?thesis
    using h e digit_code_overrides_key [of "0x35" "createKeyboardEvent (js ''%'') (Some (js ''Digit5''))"]
    by simp
qed


text \<open>
  Claim C7, as stated, fails: no prefix of four characters followed by one uppercase letter
  is read as a letter position. Such a code has five characters, the letter pattern accepts
  four, and the normalized key falls back to the logical key.
\<close>

theorem letter_code_prefix_counterexample:
  "\<not> (\<exists>p. length p = 4
         \<and> (\<forall>ev c. 0x41 \<le> c \<and> c \<le> 0x5A \<and> code ev = Some (p @ [c])
               \<longrightarrow> normalizedEventKey ev = JSString (toLowerCase [c])))"
proof
  assume "\<exists>p. length p = 4
         \<and> (\<forall>ev c. 0x41 \<le> c \<and> c \<le> 0x5A \<and> code ev = Some (p @ [c])
               \<longrightarrow> normalizedEventKey ev = JSString (toLowerCase [c]))"
  then obtain p where len: "length p = 4"
    and all: "\<And>ev c. 0x41 \<le> c \<and> c \<le> 0x5A \<and> code ev = Some (p @ [c])
               \<Longrightarrow> normalizedEventKey ev = JSString (toLowerCase [c])"
    by blast
  let ?ev = "createKeyboardEvent (js ''x'') (Some (p @ [0x4F]))"
  have "normalizedEventKey ?ev = JSString (toLowerCase [0x4F])"
    by (rule all) (simp add: createKeyboardEvent_def)
  moreover have "normalizedEventKey ?ev = normalizeKey (js ''x'')"
    using len by (simp add: normalizedEventKey_def createKeyboardEvent_def testKeyAZ_def
        testDigit09_def)
  moreover have "normalizeKey (js ''x'') = JSString (js ''x'')"
    by (simp add: normalizeKey_def keyMapGet_def keyMapOwn_def objectPrototypeProps_def
        toLowerCase_def lowerUnit_def js_def)
  ultimately show False
    by (simp add: toLowerCase_def lowerUnit_def js_def)
qed

text \<open>
  Claim C7, amended. When the event's code is the three-character prefix \<^verbatim>\<open>Key\<close> followed by
  exactly one uppercase letter \<open>A..Z\<close>, the normalized key is that letter in lower case,
  whatever the logical key is; on macOS the composed key U+00F8 with code \<^verbatim>\<open>KeyO\<close> and alt
  matches both \<^verbatim>\<open>Alt+O\<close> and \<^verbatim>\<open>Option+O\<close>.
\<close>

theorem letter_code_overrides_key:
  "(0x41 \<le> c \<and> c \<le> 0x5A \<and> code ev = Some (js ''Key'' @ [c])
      \<longrightarrow> normalizedEventKey ev = JSString [c + 32]
          \<and> normalizedEventKey ev = JSString (toLowerCase [c]))
   \<and> keymatch True ((createKeyboardEvent [0xF8] (Some (js ''KeyO'')))\<lparr>altKey := True\<rparr>)
        (js ''Alt+O'') = Inr True
   \<and> keymatch True ((createKeyboardEvent [0xF8] (Some (js ''KeyO'')))\<lparr>altKey := True\<rparr>)
        (js ''Option+O'') = Inr True"
proof -
  have g: "normalizedEventKey ev = JSString [c + 32]
          \<and> normalizedEventKey ev = JSString (toLowerCase [c])"
    if "0x41 \<le> c" "c \<le> 0x5A" "code ev = Some (js ''Key'' @ [c])"
    using that by (simp add: normalizedEventKey_def testKeyAZ_def toLowerCase_def lowerUnit_def
        js_def)
  have p1: "parseMatchString True (js ''Alt+O'') = Inr ((noModifiers (js ''o''))\<lparr>alt := True\<rparr>)"
    by (simp add: parse_eval)
  have p2: "parseMatchString True (js ''Option+O'') = Inr ((noModifiers (js ''o''))\<lparr>alt := True\<rparr>)"
    by (simp add: parse_eval)
  have n: "normalizedEventKey ((createKeyboardEvent [0xF8] (Some (js ''KeyO'')))\<lparr>altKey := True\<rparr>)
      = JSString (js ''o'')"
    by (simp add: key_eval)
  have k1: "keymatch True ((createKeyboardEvent [0xF8] (Some (js ''KeyO'')))\<lparr>altKey := True\<rparr>)
        (js ''Alt+O'') = Inr True"
    by (simp add: keymatch_def p1 n) (simp add: noModifiers_def createKeyboardEvent_def)
  have k2: "keymatch True ((createKeyboardEvent [0xF8] (Some (js ''KeyO'')))\<lparr>altKey := True\<rparr>)
        (js ''Option+O'') = Inr True"
    by (simp add: keymatch_def p2 n) (simp add: noModifiers_def createKeyboardEvent_def)
  show ?thesis
    using g k1 k2 by blast
qed

theorem letter_code_overrides_key_witness:
  "code (createKeyboardEvent [0xF8] (Some (js ''KeyO''))) = Some (js ''Key'' @ [0x4F])
   \<and> normalizedEventKey (createKeyboardEvent [0xF8] (Some (js ''KeyO''))) = JSString (js ''o'')"
proof -
  have h: "(0x41::codeunit) \<le> 0x4F \<and> (0x4F::codeunit) \<le> 0x5A
      \<and> code (createKeyboardEvent [0xF8] (Some (js ''KeyO''))) = Some (js ''Key'' @ [0x4F])"
    by (simp add: createKeyboardEvent_def js_def)
  have e: "js ''o'' = [0x4F + 32]"
    by (simp add: js_def)
  show ?thesis
    using h e letter_code_overrides_key [of "0x4F" "createKeyboardEvent [0xF8] (Some (js ''KeyO''))"]
    by simp
qed

text \<open>
  The fallback of the normalizer: away from the property names of \<^verbatim>\<open>Object.prototype\<close>, a
  logical key is lowercased and then replaced by its alias, or passed through.
\<close>

lemma normalizeKey_alias_or_lowercase:
  assumes "toLowerCase k \<notin> set objectPrototypeProps"
  shows "normalizeKey k =
           JSString (case map_of keyMapOwn (toLowerCase k) of
                       Some v \<Rightarrow> v | None \<Rightarrow> toLowerCase k)"
  using assms
  by (auto simp: normalizeKey_def keyMapGet_def keyMapOwn_def js_def split: option.splits)

lemma normalizedEventKey_fallback:
  assumes "case code ev of None \<Rightarrow> True | Some c \<Rightarrow> \<not> testKeyAZ c \<and> \<not> testDigit09 c"
  shows "normalizedEventKey ev = normalizeKey (event.key ev)"
  using assms by (auto simp: normalizedEventKey_def split: option.splits)

lemma alias_examples:
  "keymatch isMac (createKeyboardEvent (js ''ArrowUp'') None) (js ''Up'') = Inr True"
  "keymatch isMac (createKeyboardEvent (js ''ArrowUp'') (Some (js ''ArrowUp''))) (js ''Up'') = Inr True"
  "keymatch isMac (createKeyboardEvent (js '' '') None) (js ''Space'') = Inr True"
  "keymatch isMac (createKeyboardEvent (js ''F5'') None) (js ''F5'') = Inr True"
  by (simp_all add: keymatch_def parse_eval key_eval)

lemma normalizedEventKey_absent:
  "normalizedEventKey (createKeyboardEvent [] None) = JSString []"
  "normalizedEventKey (createKeyboardEvent [] (Some [])) = JSString []"
  by (simp_all add: key_eval)

text \<open>
  Claim C8 at the logical key \<^verbatim>\<open>constructor\<close>, which is not in the alias table: the lookup
  \<^verbatim>\<open>keyMap[normalized]\<close> finds \<^verbatim>\<open>Object.prototype.constructor\<close>, a truthy function, so
  \<^verbatim>\<open>normalizeKey\<close> returns that function instead of the lowercased key, and the event does
  not match the accelerator \<^verbatim>\<open>constructor\<close>.
\<close>

theorem constructor_key_not_passed_through:
  "toLowerCase (js ''constructor'') = js ''constructor''
   \<and> map_of keyMapOwn (js ''constructor'') = None
   \<and> normalizeKey (js ''constructor'') = JSBuiltin (js ''constructor'')
   \<and> normalizeKey (js ''constructor'') \<noteq> JSString (js ''constructor'')
   \<and> keymatch isMac (createKeyboardEvent (js ''constructor'') None) (js ''constructor'')
       = Inr False"
  by (simp add: keymatch_def parse_eval key_eval)

text \<open>
  Claim C9 at the logical key \<^verbatim>\<open>Constructor\<close> with no code: the normalizer returns without
  throwing, but what it returns is the inherited \<^verbatim>\<open>constructor\<close> function, not a string.
\<close>

theorem normalized_key_not_a_string:
  "normalizedEventKey (createKeyboardEvent (js ''Constructor'') None)
     = JSBuiltin (js ''constructor'')
   \<and> \<not> (\<exists>s. normalizedEventKey (createKeyboardEvent (js ''Constructor'') None) = JSString s)"
  by (simp add: key_eval)

lemma joinWith_splitOn: "joinWith sep (splitOn sep s) = s"
proof (induction s)
  case Nil
  then show ?case by simp
next
  case (Cons c cs)
  obtain p ps where ps: "splitOn sep cs = p # ps"
    using splitOn_not_Nil [of sep cs] by (cases "splitOn sep cs") auto
  with Cons show ?case
    by (cases ps) auto
qed

lemma splitOn_inject: "splitOn sep s = splitOn sep s' \<Longrightarrow> s = s'"
  by (metis joinWith_splitOn)

lemma plus_if_modifier_tokens:
  "butlast (splitOn plusSign s) \<noteq> [] \<Longrightarrow> plusSign \<in> set s"
  by (cases "plusSign \<in> set s") (simp_all add: splitOn_no_sep)

lemma parse_not_blank:
  assumes "trim acc \<noteq> []"
  shows "parseMatchString isMac acc =
           (if last (splitOn plusSign acc) = [] then Inl (InvalidAccelerator acc)
            else Inr (fold (switchModifier isMac)
                        (map toLowerCase (butlast (splitOn plusSign acc)))
                        (noModifiers (toLowerCase (last (splitOn plusSign acc))))))"
  using assms by (simp add: parseMatchString_def Let_def toLowerCase_Nil_iff)

text \<open>
  Claim C10. Two accelerators with the same last token and the same set of modifier tokens
  before it (so one may permute or repeat the modifier tokens of the other) parse to the
  same result whenever one of them parses without error, and then match the same events
  under the same platform answer.
\<close>

theorem parse_modifier_order_multiplicity:
  assumes "set (butlast (splitOn plusSign acc)) = set (butlast (splitOn plusSign acc'))"
    and "last (splitOn plusSign acc) = last (splitOn plusSign acc')"
    and "parseMatchString isMac acc = Inr p"
  shows "parseMatchString isMac acc' = Inr p
         \<and> keymatch isMac ev acc' = keymatch isMac ev acc"
proof -
  have "parseMatchString isMac acc' = parseMatchString isMac acc"
  proof (cases "butlast (splitOn plusSign acc) = []")
    case True
    then have "butlast (splitOn plusSign acc') = []"
      using assms(1) by simp
    with True have "splitOn plusSign acc = splitOn plusSign acc'"
      using assms(2) append_butlast_last_id [of "splitOn plusSign acc"]
        append_butlast_last_id [of "splitOn plusSign acc'"]
      by simp
    then show ?thesis
      by (simp add: splitOn_inject [of plusSign acc acc'])
  next
    case False
    then have f': "butlast (splitOn plusSign acc') \<noteq> []"
      using assms(1) by auto
    have nb: "trim acc \<noteq> []" "trim acc' \<noteq> []"
      using False f' by (simp_all add: plus_if_modifier_tokens not_blank_if_plus)
    have "set (map toLowerCase (butlast (splitOn plusSign acc)))
        = set (map toLowerCase (butlast (splitOn plusSign acc')))"
      using assms(1) by simp
    then have "fold (switchModifier isMac) (map toLowerCase (butlast (splitOn plusSign acc))) st
        = fold (switchModifier isMac) (map toLowerCase (butlast (splitOn plusSign acc'))) st" for st
      by (rule fold_switch_set_cong)
    then show ?thesis
      using assms(3) by (simp add: parse_not_blank nb assms(2) split: if_splits)
  qed
  then show ?thesis
    using assms(3) by (simp add: keymatch_def)
qed

theorem parse_modifier_order_multiplicity_witness:
  "parseMatchString False (js ''Ctrl+Shift+J'')
     = Inr \<lparr>ctrl = True, alt = False, shift = True, meta = False, key = js ''j''\<rparr>
   \<and> parseMatchString False (js ''Shift+Ctrl+Shift+J'')
     = Inr \<lparr>ctrl = True, alt = False, shift = True, meta = False, key = js ''j''\<rparr>
   \<and> keymatch False ((createKeyboardEvent (js ''J'') None)\<lparr>ctrlKey := True, shiftKey := True\<rparr>)
        (js ''Shift+Ctrl+Shift+J'')
      = keymatch False ((createKeyboardEvent (js ''J'') None)\<lparr>ctrlKey := True, shiftKey := True\<rparr>)
        (js ''Ctrl+Shift+J'')"
proof -
  have a: "set (butlast (splitOn plusSign (js ''Ctrl+Shift+J'')))
      = set (butlast (splitOn plusSign (js ''Shift+Ctrl+Shift+J'')))"
    by (simp add: js_def plusSign_def insert_commute)
  have b: "last (splitOn plusSign (js ''Ctrl+Shift+J''))
      = last (splitOn plusSign (js ''Shift+Ctrl+Shift+J''))"
    by (simp add: js_def plusSign_def)
  have c: "parseMatchString False (js ''Ctrl+Shift+J'')
     = Inr \<lparr>ctrl = True, alt = False, shift = True, meta = False, key = js ''j''\<rparr>"
    by (simp add: parse_eval)
  show ?thesis
    using c parse_modifier_order_multiplicity [OF a b c]
    by simp
qed

end
